theory Spec2Isabelle
  imports Complex_Main
begin

section \<open>Python values and exceptions\<close>

text \<open>
  The fall-detection pipeline is Python. Its numbers are ints (pixel coordinates) and
  floats (confidences, ratios); both are modelled by exact rationals, and \<open>/\<close> is
  Python's true division, which raises on a zero divisor. Every exception the modelled
  code can raise is a constructor of \<open>error\<close>, and a function that can raise
  returns \<open>error + 'a\<close>.
\<close>

datatype error =
    ZeroDivisionError
  | KeyError string
  | IndexError
  | TypeError
  | InferenceError

definition bindE :: "error + 'a \<Rightarrow> ('a \<Rightarrow> error + 'b) \<Rightarrow> error + 'b" where
  "bindE m f = (case m of Inl e \<Rightarrow> Inl e | Inr x \<Rightarrow> f x)"

definition truediv :: "rat \<Rightarrow> rat \<Rightarrow> error + rat" where
  "truediv a b = (if b = 0 then Inl ZeroDivisionError else Inr (a / b))"

section \<open>Suspect filter (pipeline.py, \<open>_is_suspect\<close>)\<close>

text \<open>
  A box is \<open>[x1, y1, x2, y2]\<close> in pixels; the detector builds it from ints, so the
  coordinates are integers and the unpacking of the four values cannot fail. The float
  literals of the rules (1.5, 0.6, 1.4) stand for the decimal fractions they denote.
\<close>

type_synonym bbox = "int \<times> int \<times> int \<times> int"

fun is_suspect :: "bbox \<Rightarrow> error + bool" where
  "is_suspect (x1, y1, x2, y2) =
     (let width = x2 - x1;
          height = y2 - y1
      in if height = 0 then Inr False
         else
           bindE (truediv (of_int width) (of_int height)) (\<lambda>aspect_ratio.
           bindE (truediv (of_int (y1 + y2)) 2) (\<lambda>center_y.
           let box_area = width * height;
               frame_area = 640 * 480
           in bindE (truediv (of_int box_area) (of_int frame_area)) (\<lambda>q.
              let box_percentage = q * 100
              in if box_percentage > 50 \<and> height > 250 then Inr False
                 else if aspect_ratio > 15 / 10 then Inr True
                 else if center_y > 300 \<and> aspect_ratio > 6 / 10 \<and> aspect_ratio < 14 / 10
                         \<and> y2 > 380 then Inr True
                 else if height < 180 \<and> y2 > 360 then Inr True
                 else Inr False))))"

subsection \<open>The decision rules as the specification words them\<close>

text \<open>
  The specification's contract is \<open>is_suspect(bbox, frame_width, frame_height)\<close>, with
  the derived quantities of the data model and four rules tried in order.
\<close>

definition aspect_ratio_spec :: "bbox \<Rightarrow> rat" where
  "aspect_ratio_spec b = (case b of (x1, y1, x2, y2) \<Rightarrow> of_int (x2 - x1) / of_int (y2 - y1))"

definition center_y_spec :: "bbox \<Rightarrow> rat" where
  "center_y_spec b = (case b of (x1, y1, x2, y2) \<Rightarrow> of_int (y1 + y2) / 2)"

definition height_spec :: "bbox \<Rightarrow> int" where
  "height_spec b = (case b of (x1, y1, x2, y2) \<Rightarrow> y2 - y1)"

definition box_percentage_spec :: "bbox \<Rightarrow> int \<Rightarrow> int \<Rightarrow> rat" where
  "box_percentage_spec b frame_width frame_height =
     (case b of (x1, y1, x2, y2) \<Rightarrow>
        (of_int ((x2 - x1) * (y2 - y1)) / of_int (frame_width * frame_height)) * 100)"

definition rule1_spec :: "bbox \<Rightarrow> int \<Rightarrow> int \<Rightarrow> bool" where
  "rule1_spec b frame_width frame_height =
     (box_percentage_spec b frame_width frame_height > 50 \<and> height_spec b > 250)"

definition rule2_spec :: "bbox \<Rightarrow> bool" where
  "rule2_spec b = (aspect_ratio_spec b > 15 / 10)"

definition rule3_spec :: "bbox \<Rightarrow> bool" where
  "rule3_spec b =
     (case b of (x1, y1, x2, y2) \<Rightarrow>
        center_y_spec b > 300 \<and> 6 / 10 < aspect_ratio_spec b \<and> aspect_ratio_spec b < 14 / 10
        \<and> y2 > 380)"

definition rule4_spec :: "bbox \<Rightarrow> bool" where
  "rule4_spec b = (case b of (x1, y1, x2, y2) \<Rightarrow> height_spec b < 180 \<and> y2 > 360)"

definition is_suspect_spec :: "bbox \<Rightarrow> int \<Rightarrow> int \<Rightarrow> bool" where
  "is_suspect_spec b frame_width frame_height =
     (if rule1_spec b frame_width frame_height then False
      else if rule2_spec b then True
      else if rule3_spec b then True
      else if rule4_spec b then True
      else False)"

text \<open>
  The contract as a whole: the specification treats a box of height zero as malformed
  geometry, which is not suspect whatever the rules would say; any other box is decided
  by the four rules.
\<close>

definition is_suspect_contract :: "bbox \<Rightarrow> int \<Rightarrow> int \<Rightarrow> bool" where
  "is_suspect_contract b frame_width frame_height =
     (if height_spec b = 0 then False else is_suspect_spec b frame_width frame_height)"

section \<open>Fall confirmation (pipeline.py, \<open>_confirm_fall\<close>)\<close>

text \<open>
  A pose is a Python dict from key names to values: keypoints are coordinate lists
  \<open>[x, y]\<close>, \<open>orientation\<close> is a string and \<open>confidence\<close> a number. The dict is an
  association list read with \<open>map_of\<close>; \<open>None\<close> is the absent pose.
\<close>

datatype pyval = VNum rat | VStr string | VList "pyval list"

type_synonym pose = "(string \<times> pyval) list"

definition getitem :: "pose \<Rightarrow> string \<Rightarrow> error + pyval" where
  "getitem d k = (case map_of d k of None \<Rightarrow> Inl (KeyError k) | Some v \<Rightarrow> Inr v)"

fun subscript :: "pyval \<Rightarrow> nat \<Rightarrow> error + pyval" where
  "subscript (VList xs) i = (if i < length xs then Inr (xs ! i) else Inl IndexError)"
| "subscript (VStr s) i = (if i < length s then Inr (VStr [s ! i]) else Inl IndexError)"
| "subscript (VNum a) i = Inl TypeError"

fun py_add :: "pyval \<Rightarrow> pyval \<Rightarrow> error + pyval" where
  "py_add (VNum a) (VNum b) = Inr (VNum (a + b))"
| "py_add (VStr a) (VStr b) = Inr (VStr (a @ b))"
| "py_add (VList a) (VList b) = Inr (VList (a @ b))"
| "py_add a b = Inl TypeError"

fun py_sub :: "pyval \<Rightarrow> pyval \<Rightarrow> error + pyval" where
  "py_sub (VNum a) (VNum b) = Inr (VNum (a - b))"
| "py_sub a b = Inl TypeError"

fun py_truediv :: "pyval \<Rightarrow> pyval \<Rightarrow> error + pyval" where
  "py_truediv (VNum a) (VNum b) = bindE (truediv a b) (\<lambda>q. Inr (VNum q))"
| "py_truediv a b = Inl TypeError"

fun py_abs :: "pyval \<Rightarrow> error + pyval" where
  "py_abs (VNum a) = Inr (VNum \<bar>a\<bar>)"
| "py_abs a = Inl TypeError"

text \<open>\<open>v < n\<close> for a number \<open>n\<close>: Python orders numbers only with numbers.\<close>

fun py_lt_num :: "pyval \<Rightarrow> rat \<Rightarrow> error + bool" where
  "py_lt_num (VNum a) n = Inr (a < n)"
| "py_lt_num a n = Inl TypeError"

definition confirm_fall :: "pose option \<Rightarrow> error + bool" where
  "confirm_fall pose_data =
     (case pose_data of
        None \<Rightarrow> Inr False
      | Some p \<Rightarrow>
          if p = [] then Inr False
          else if map_of p ''orientation'' = Some (VStr ''horizontal'') then Inr True
          else
            bindE (getitem p ''nose'') (\<lambda>nose.
            bindE (subscript nose 1) (\<lambda>nose_y.
            bindE (getitem p ''left_hip'') (\<lambda>left_hip.
            bindE (subscript left_hip 1) (\<lambda>left_hip_y.
            bindE (getitem p ''right_hip'') (\<lambda>right_hip.
            bindE (subscript right_hip 1) (\<lambda>right_hip_y.
            bindE (py_add left_hip_y right_hip_y) (\<lambda>hip_sum.
            bindE (py_truediv hip_sum (VNum 2)) (\<lambda>hip_y.
            bindE (py_sub nose_y hip_y) (\<lambda>diff.
            bindE (py_abs diff) (\<lambda>dist.
            bindE (py_lt_num dist 20) (\<lambda>close.
            if close then Inr True else Inr False))))))))))))"

text \<open>
  A key holds a keypoint whose y can be read: a coordinate list with a number at index 1.
\<close>

definition has_keypoint_y :: "pose \<Rightarrow> string \<Rightarrow> bool" where
  "has_keypoint_y p k =
     (case map_of p k of
        Some (VList (x # VNum y # rest)) \<Rightarrow> True
      | _ \<Rightarrow> False)"

section \<open>Pose service (pose_service.py)\<close>

text \<open>
  The repository's pose estimator is a simulation: one draw \<open>r\<close> of
  \<open>random.random()\<close> picks one of two fixed poses; the frame and the box are not read.
\<close>

definition estimate_pose :: "rat \<Rightarrow> 'f option \<Rightarrow> bbox \<Rightarrow> pose" where
  "estimate_pose r frame bbox =
     (let is_fallen = r > 8 / 10
      in if is_fallen then
           [(''nose'', VList [VNum 150, VNum 280]),
            (''left_shoulder'', VList [VNum 140, VNum 280]),
            (''right_shoulder'', VList [VNum 160, VNum 280]),
            (''left_hip'', VList [VNum 140, VNum 285]),
            (''right_hip'', VList [VNum 160, VNum 285]),
            (''left_ankle'', VList [VNum 140, VNum 290]),
            (''right_ankle'', VList [VNum 160, VNum 290]),
            (''orientation'', VStr ''horizontal''),
            (''confidence'', VNum (9 / 10))]
         else
           [(''nose'', VList [VNum 150, VNum 120]),
            (''left_shoulder'', VList [VNum 140, VNum 140]),
            (''right_shoulder'', VList [VNum 160, VNum 140]),
            (''left_hip'', VList [VNum 145, VNum 200]),
            (''right_hip'', VList [VNum 155, VNum 200]),
            (''left_ankle'', VList [VNum 145, VNum 280]),
            (''right_ankle'', VList [VNum 155, VNum 280]),
            (''orientation'', VStr ''vertical''),
            (''confidence'', VNum (95 / 100))])"

section \<open>Person detector (yolo_service.py)\<close>

record detection =
  d_bbox :: bbox
  d_confidence :: rat
  d_class :: string

text \<open>
  \<open>_mock_detection\<close> draws \<open>random.random()\<close> once for the branch (\<open>r1\<close>) and, in the
  first branch, once more for the confidence (\<open>r2\<close>).
\<close>

definition mock_detection :: "rat \<Rightarrow> rat \<Rightarrow> detection list" where
  "mock_detection r1 r2 =
     (if r1 > 3 / 10 then
        [\<lparr>d_bbox = (100, 100, 200, 300),
          d_confidence = 85 / 100 + (r2 * (14 / 100)),
          d_class = ''person''\<rparr>]
      else [])"

text \<open>
  The body of the \<open>try\<close> block (OpenCV inference, thresholding, scaling, non-maximum
  suppression) is the parameter \<open>inference\<close>: it yields the detections or raises.
  \<open>except Exception\<close> catches every exception of the block.
\<close>

definition detect_persons ::
  "bool \<Rightarrow> ('f \<Rightarrow> error + detection list) \<Rightarrow> 'f option \<Rightarrow> rat \<Rightarrow> rat \<Rightarrow> detection list" where
  "detect_persons model_loaded inference frame r1 r2 =
     (case frame of
        None \<Rightarrow> mock_detection r1 r2
      | Some f \<Rightarrow>
          if \<not> model_loaded then mock_detection r1 r2
          else (case inference f of
                  Inr detections \<Rightarrow> detections
                | Inl e \<Rightarrow> mock_detection r1 r2))"

section \<open>Pipeline orchestrator (pipeline.py, \<open>process_frame\<close>)\<close>

record detection_info =
  di_bbox :: bbox
  di_is_suspect :: bool
  di_pose :: "pose option"

record fall_event_details =
  ev_confidence :: pyval
  ev_bbox :: bbox
  ev_pose :: "pose option"

record frame_result =
  camera_id :: string
  timestamp :: rat
  detections :: "detection_info list"
  fall_detected :: bool
  event_details :: "fall_event_details option"

text \<open>
  \<open>pose_service.estimate_pose\<close> is a parameter of the pipeline: \<open>pose_service n frame bbox\<close>
  is what the \<open>n\<close>-th call of the frame returns (the result may differ from call to call,
  and may be \<open>None\<close>). The loop state is the \<open>results\<close> dict together with the number of
  pose estimations made so far; the count is not part of the Python result.
\<close>

type_synonym 'f pose_service = "nat \<Rightarrow> 'f option \<Rightarrow> bbox \<Rightarrow> pose option"

definition mock_pose_service :: "(nat \<Rightarrow> rat) \<Rightarrow> 'f pose_service" where
  "mock_pose_service rnd = (\<lambda>n frame bbox. Some (estimate_pose (rnd n) frame bbox))"

definition process_person ::
  "'f pose_service \<Rightarrow> 'f option \<Rightarrow> frame_result \<times> nat \<Rightarrow> detection
     \<Rightarrow> error + (frame_result \<times> nat)" where
  "process_person pose_service frame st person =
     (case st of (results, calls) \<Rightarrow>
        let bbox = d_bbox person;
            confidence = d_confidence person
        in bindE (is_suspect bbox) (\<lambda>suspect.
           let detection_info = \<lparr>di_bbox = bbox, di_is_suspect = suspect, di_pose = None\<rparr>
           in if suspect then
                let pose_data = pose_service calls frame bbox;
                    detection_info = detection_info\<lparr>di_pose := pose_data\<rparr>
                in bindE (confirm_fall pose_data) (\<lambda>confirmed.
                   if confirmed then
                     bindE (case pose_data of None \<Rightarrow> Inl TypeError
                            | Some p \<Rightarrow> getitem p ''confidence'') (\<lambda>pose_confidence.
                     bindE (py_add (VNum confidence) pose_confidence) (\<lambda>total.
                     bindE (py_truediv total (VNum 2)) (\<lambda>mean.
                     Inr (results\<lparr>fall_detected := True,
                                  event_details :=
                                    Some \<lparr>ev_confidence = mean, ev_bbox = bbox,
                                          ev_pose = pose_data\<rparr>,
                                  detections := detections results @ [detection_info]\<rparr>,
                          Suc calls))))
                   else
                     Inr (results\<lparr>detections := detections results @ [detection_info]\<rparr>,
                          Suc calls))
              else
                Inr (results\<lparr>detections := detections results @ [detection_info]\<rparr>, calls)))"

fun process_persons ::
  "'f pose_service \<Rightarrow> 'f option \<Rightarrow> frame_result \<times> nat \<Rightarrow> detection list
     \<Rightarrow> error + (frame_result \<times> nat)" where
  "process_persons pose_service frame st [] = Inr st"
| "process_persons pose_service frame st (person # persons) =
     bindE (process_person pose_service frame st person)
       (\<lambda>st'. process_persons pose_service frame st' persons)"

definition process_frame ::
  "bool \<Rightarrow> ('f \<Rightarrow> error + detection list) \<Rightarrow> rat \<Rightarrow> rat \<Rightarrow> 'f pose_service \<Rightarrow> rat
     \<Rightarrow> string \<Rightarrow> 'f option \<Rightarrow> error + (frame_result \<times> nat)" where
  "process_frame model_loaded inference r1 r2 pose_service now cam frame =
     (let results = \<lparr>camera_id = cam, timestamp = now, detections = [],
                     fall_detected = False, event_details = None\<rparr>;
          persons = detect_persons model_loaded inference frame r1 r2
      in process_persons pose_service frame (results, 0) persons)"

section \<open>Video stream registry (video_stream_service.py)\<close>

text \<open>
  The service keeps two dicts keyed by camera URL. A capture handle is identified by a
  number; \<open>released\<close> logs every call of \<open>release()\<close> on a handle, in order. Calls of one
  thread are modelled; what OpenCV does (opening a camera, reading a frame) is given as
  the outcome of the call.
\<close>

type_synonym capture = nat

record stream_service =
  active_streams :: "string \<rightharpoonup> capture"
  stream_locks :: "string \<rightharpoonup> unit"
  released :: "capture list"

definition delitem :: "(string \<rightharpoonup> 'v) \<Rightarrow> string \<Rightarrow> error + (string \<rightharpoonup> 'v)" where
  "delitem d k = (if d k = None then Inl (KeyError k) else Inr (d(k := None)))"

datatype open_result =
    OpenRaises
  | NotOpened capture
  | NoTestFrame capture
  | Opened capture

definition get_stream ::
  "string \<Rightarrow> open_result \<Rightarrow> stream_service \<Rightarrow> capture option \<times> stream_service" where
  "get_stream camera_url opening s =
     (if active_streams s camera_url = None then
        (case opening of
           OpenRaises \<Rightarrow> (None, s)
         | NotOpened cap \<Rightarrow> (None, s)
         | NoTestFrame cap \<Rightarrow> (None, s\<lparr>released := released s @ [cap]\<rparr>)
         | Opened cap \<Rightarrow>
             (let s' = s\<lparr>active_streams := (active_streams s)(camera_url \<mapsto> cap),
                         stream_locks := (stream_locks s)(camera_url \<mapsto> ())\<rparr>
              in (active_streams s' camera_url, s')))
      else (active_streams s camera_url, s))"

text \<open>
  \<open>read1\<close> and \<open>read2\<close> are the outcomes of the two \<open>stream.read()\<close> calls (\<open>None\<close> when
  \<open>not ret or frame is None\<close>); \<open>overlay\<close> is the detection and drawing block, whose
  exceptions the enclosing \<open>try\<close> turns into \<open>None\<close>.
\<close>

definition read_frame ::
  "string \<Rightarrow> bool \<Rightarrow> open_result \<Rightarrow> 'f option \<Rightarrow> 'f option \<Rightarrow> ('f \<Rightarrow> error + 'f)
     \<Rightarrow> stream_service \<Rightarrow> 'f option \<times> stream_service" where
  "read_frame camera_url with_detections opening read1 read2 overlay s =
     (case get_stream camera_url opening s of
        (None, s1) \<Rightarrow> (None, s1)
      | (Some stream, s1) \<Rightarrow>
          (case stream_locks s1 camera_url of
             None \<Rightarrow> (None, s1)
           | Some lock \<Rightarrow>
               (case (case read1 of Some frame \<Rightarrow> Some frame | None \<Rightarrow> read2) of
                  None \<Rightarrow>
                    (let s2 = s1\<lparr>released := released s1 @ [stream]\<rparr>
                     in if active_streams s2 camera_url \<noteq> None
                        then (None, s2\<lparr>active_streams := (active_streams s2)(camera_url := None)\<rparr>)
                        else (None, s2))
                | Some frame \<Rightarrow>
                    if with_detections then
                      (case overlay frame of
                         Inl e \<Rightarrow> (None, s1)
                       | Inr annotated \<Rightarrow> (Some annotated, s1))
                    else (Some frame, s1))))"

definition release_stream :: "string \<Rightarrow> stream_service \<Rightarrow> error + stream_service" where
  "release_stream camera_url s =
     (case active_streams s camera_url of
        None \<Rightarrow> Inr s
      | Some cap \<Rightarrow>
          (let s1 = s\<lparr>released := released s @ [cap]\<rparr>
           in bindE (delitem (active_streams s1) camera_url) (\<lambda>streams.
              let s2 = s1\<lparr>active_streams := streams\<rparr>
              in if stream_locks s2 camera_url \<noteq> None then
                   bindE (delitem (stream_locks s2) camera_url) (\<lambda>locks.
                   Inr (s2\<lparr>stream_locks := locks\<rparr>))
                 else Inr s2)))"

section \<open>Properties of the suspect filter\<close>

lemmas spec_rule_defs =
  is_suspect_spec_def rule1_spec_def rule2_spec_def rule3_spec_def rule4_spec_def
  box_percentage_spec_def aspect_ratio_spec_def center_y_spec_def height_spec_def

lemma is_suspect_nonzero_height:
  assumes "y1 \<noteq> y2" and "frame_width * frame_height = 307200"
  shows "is_suspect (x1, y1, x2, y2) =
           Inr (is_suspect_spec (x1, y1, x2, y2) frame_width frame_height)"
proof -
  have h: "(of_int (y2 - y1) :: rat) \<noteq> 0"
    using assms(1) by simp
  have "y2 - y1 \<noteq> 0"
    using assms(1) by simp
  then show ?thesis
    using h assms(2)
    by (simp add: spec_rule_defs bindE_def truediv_def Let_def
        del: of_int_diff of_int_mult of_int_add of_int_eq_0_iff)
qed

text \<open>
  C7. A bounding box of height zero (\<open>y2 = y1\<close>) is not suspect, and the function returns
  that value: no \<open>ZeroDivisionError\<close> (no exception at all) is raised, because the
  height test comes before the aspect-ratio division. The example of the specification is
  \<open>(10, 10, 50, 10)\<close>.
\<close>

theorem is_suspect_zero_height:
  "is_suspect (x1, y, x2, y) = Inr False \<and> is_suspect (10, 10, 50, 10) = Inr False"
  by simp

text \<open>
  C1. With the frame area fixed at 640 * 480, for every box with \<open>y2 > y1\<close> the function
  returns exactly what the four rules of the specification give when tried in order, the
  first applicable one deciding. In particular a box that meets the conditions of rule 1
  and of rule 2 is not suspect, and so is the box \<open>(50, 50, 590, 430)\<close> of the
  specification (its aspect ratio is 540 / 380, so it is rule 1 alone that decides it).
\<close>

theorem is_suspect_refines_rules:
  assumes "y1 < y2"
  shows "is_suspect (x1, y1, x2, y2) = Inr (is_suspect_spec (x1, y1, x2, y2) 640 480)
       \<and> (rule1_spec (x1, y1, x2, y2) 640 480 \<and> rule2_spec (x1, y1, x2, y2)
            \<longrightarrow> is_suspect (x1, y1, x2, y2) = Inr False)
       \<and> is_suspect (50, 50, 590, 430) = Inr False"
proof -
  have ne: "y1 \<noteq> y2"
    using assms by simp
  have eq: "is_suspect (x1, y1, x2, y2) = Inr (is_suspect_spec (x1, y1, x2, y2) 640 480)"
    by (rule is_suspect_nonzero_height [OF ne]) simp
  have prec: "rule1_spec (x1, y1, x2, y2) 640 480 \<longrightarrow> is_suspect (x1, y1, x2, y2) = Inr False"
    unfolding eq by (simp add: is_suspect_spec_def)
  have ex: "is_suspect (50, 50, 590, 430) = Inr False"
    by (simp add: bindE_def truediv_def)
  from eq prec ex show ?thesis
    by blast
qed

theorem is_suspect_refines_rules_witness:
  "(0::int) < 300 \<and> rule1_spec (0, 0, 640, 300) 640 480 \<and> rule2_spec (0, 0, 640, 300)
   \<and> is_suspect (0, 0, 640, 300) = Inr False
   \<and> is_suspect (0, 0, 640, 300) = Inr (is_suspect_spec (0, 0, 640, 300) 640 480)"
  using is_suspect_refines_rules [of 0 300 0 640]
  by (simp add: spec_rule_defs bindE_def truediv_def)

text \<open>
  C6, as the specification states it: the filter takes the frame's dimensions and
  computes the box percentage against \<open>frame_width * frame_height\<close>. The code does not:
  on a 1280 x 960 frame the box \<open>(0, 0, 700, 300)\<close> covers 17 percent of the frame, so
  rule 1 of the specification does not apply and rule 2 makes it suspect, but the code
  measures it against 640 * 480 (68 percent), applies rule 1 and answers not suspect.
\<close>

theorem is_suspect_frame_dims_counterexample:
  "is_suspect (0, 0, 700, 300) = Inr False
   \<and> is_suspect_spec (0, 0, 700, 300) 1280 960 = True
   \<and> is_suspect_contract (0, 0, 700, 300) 1280 960 = True
   \<and> rule1_spec (0, 0, 700, 300) 640 480
   \<and> \<not> rule1_spec (0, 0, 700, 300) 1280 960"
  by (simp add: is_suspect_contract_def spec_rule_defs bindE_def truediv_def)

text \<open>
  C6, amended. The filter is a function of the bounding box alone: it receives no frame
  dimensions and measures the box against the fixed area 640 * 480. So, for every box and
  whatever the frame: a box that meets rule 1 at 640 x 480 is not suspect, and a box that
  meets rule 2 is suspect exactly when rule 1 at 640 x 480 does not apply. On every frame
  whose area \<open>frame_width * frame_height\<close> is 640 * 480 the filter agrees with the
  specification's \<open>is_suspect(bbox, frame_width, frame_height)\<close>, boxes of height zero
  included.
\<close>

theorem is_suspect_fixed_frame_area:
  "(frame_width * frame_height = 640 * 480 \<longrightarrow>
      is_suspect (x1, y1, x2, y2) =
        Inr (is_suspect_contract (x1, y1, x2, y2) frame_width frame_height))
   \<and> (rule1_spec (x1, y1, x2, y2) 640 480 \<longrightarrow> is_suspect (x1, y1, x2, y2) = Inr False)
   \<and> (rule2_spec (x1, y1, x2, y2) \<longrightarrow>
        is_suspect (x1, y1, x2, y2) = Inr (\<not> rule1_spec (x1, y1, x2, y2) 640 480))"
proof (cases "y1 = y2")
  case True
  have "\<not> rule1_spec (x1, y1, x2, y2) 640 480"
    using True by (simp add: rule1_spec_def height_spec_def)
  moreover have "\<not> rule2_spec (x1, y1, x2, y2)"
    using True by (simp add: rule2_spec_def aspect_ratio_spec_def)
  moreover have "is_suspect (x1, y1, x2, y2) = Inr False"
    using True by simp
  moreover have "is_suspect_contract (x1, y1, x2, y2) frame_width frame_height = False"
    using True by (simp add: is_suspect_contract_def height_spec_def)
  ultimately show ?thesis
    by simp
next
  case False
  then have c: "is_suspect_contract (x1, y1, x2, y2) frame_width frame_height =
                  is_suspect_spec (x1, y1, x2, y2) frame_width frame_height"
    by (simp add: is_suspect_contract_def height_spec_def)
  have a: "frame_width * frame_height = 640 * 480 \<longrightarrow>
            is_suspect (x1, y1, x2, y2) =
              Inr (is_suspect_contract (x1, y1, x2, y2) frame_width frame_height)"
    unfolding c using is_suspect_nonzero_height [OF False] by simp
  have eq: "is_suspect (x1, y1, x2, y2) = Inr (is_suspect_spec (x1, y1, x2, y2) 640 480)"
    by (rule is_suspect_nonzero_height [OF False]) simp
  have b: "rule1_spec (x1, y1, x2, y2) 640 480 \<longrightarrow> is_suspect (x1, y1, x2, y2) = Inr False"
    unfolding eq by (simp add: is_suspect_spec_def)
  have d: "rule2_spec (x1, y1, x2, y2) \<longrightarrow>
            is_suspect (x1, y1, x2, y2) = Inr (\<not> rule1_spec (x1, y1, x2, y2) 640 480)"
    unfolding eq by (simp add: is_suspect_spec_def)
  from a b d show ?thesis
    by blast
qed

theorem is_suspect_fixed_frame_area_witness:
  "(480::int) * 640 = 640 * 480
   \<and> rule1_spec (0, 0, 700, 300) 640 480 \<and> rule2_spec (0, 0, 700, 300)
   \<and> is_suspect (0, 0, 700, 300) = Inr (is_suspect_contract (0, 0, 700, 300) 480 640)
   \<and> is_suspect (0, 0, 700, 300) = Inr False
   \<and> is_suspect (0, 400, 10, 400) = Inr (is_suspect_contract (0, 400, 10, 400) 480 640)"
  using is_suspect_fixed_frame_area [of 480 640 0 0 700 300]
    is_suspect_fixed_frame_area [of 480 640 0 400 10 400]
  by (simp add: is_suspect_contract_def spec_rule_defs bindE_def truediv_def)

section \<open>Properties of the fall confirmation\<close>

lemma map_of_Some_nonempty: "map_of p k = Some v \<Longrightarrow> p \<noteq> []"
  by auto

lemma has_keypoint_yD:
  "has_keypoint_y p k \<Longrightarrow> \<exists>x y rest. map_of p k = Some (VList (x # VNum y # rest))"
  by (auto simp: has_keypoint_y_def split: option.splits pyval.splits list.splits)

lemma confirm_fall_keypoints:
  assumes "map_of p ''orientation'' \<noteq> Some (VStr ''horizontal'')"
    and n: "map_of p ''nose'' = Some (VList (nx # VNum nose_y # nrest))"
    and "map_of p ''left_hip'' = Some (VList (lx # VNum left_y # lrest))"
    and "map_of p ''right_hip'' = Some (VList (rx # VNum right_y # rrest))"
  shows "confirm_fall (Some p) = Inr (\<bar>nose_y - (left_y + right_y) / 2\<bar> < 20)"
  using assms map_of_Some_nonempty [OF n]
  by (simp add: confirm_fall_def getitem_def bindE_def truediv_def)

lemma read_y_Inr:
  assumes "bindE (getitem p k) (\<lambda>v. bindE (subscript v 1) f) = Inr r"
  shows "\<exists>w. (has_keypoint_y p k \<or> (\<forall>y. w \<noteq> VNum y)) \<and> f w = Inr r"
proof (cases "map_of p k")
  case None
  with assms show ?thesis by (simp add: getitem_def bindE_def)
next
  case (Some v)
  show ?thesis
  proof (cases v)
    case (VNum a)
    with Some assms show ?thesis by (simp add: getitem_def bindE_def)
  next
    case (VStr s)
    with Some assms show ?thesis
      by (auto simp: getitem_def bindE_def split: if_splits)
  next
    case (VList xs)
    show ?thesis
    proof (cases xs)
      case Nil
      with Some VList assms show ?thesis by (simp add: getitem_def bindE_def)
    next
      case (Cons a ys)
      show ?thesis
      proof (cases ys)
        case Nil
        with Some VList Cons assms show ?thesis by (simp add: getitem_def bindE_def)
      next
        case inner: (Cons y zs)
        with Some VList Cons assms show ?thesis
          by (cases y) (auto simp: getitem_def bindE_def has_keypoint_y_def)
      qed
    qed
  qed
qed

lemma arith_needs_numbers:
  "bindE (py_add a b) (\<lambda>hip_sum.
     bindE (py_truediv hip_sum (VNum 2)) (\<lambda>hip_y.
     bindE (py_sub n hip_y) (\<lambda>diff.
     bindE (py_abs diff) (\<lambda>dist.
     bindE (py_lt_num dist 20) (\<lambda>close.
     if close then Inr True else Inr False))))) = Inr r
   \<Longrightarrow> (\<exists>x. a = VNum x) \<and> (\<exists>x. b = VNum x) \<and> (\<exists>x. n = VNum x)"
  by (cases a; cases b; cases n) (simp_all add: bindE_def truediv_def)

lemma confirm_fall_Inr_keypoints:
  assumes ne: "p \<noteq> []"
    and nh: "map_of p ''orientation'' \<noteq> Some (VStr ''horizontal'')"
    and r: "confirm_fall (Some p) = Inr r"
  shows "has_keypoint_y p ''nose'' \<and> has_keypoint_y p ''left_hip'' \<and> has_keypoint_y p ''right_hip''"
proof (rule ccontr)
  assume neg: "\<not> ?thesis"
  let ?tail = "\<lambda>nose_y left_hip_y right_hip_y.
      bindE (py_add left_hip_y right_hip_y) (\<lambda>hip_sum.
      bindE (py_truediv hip_sum (VNum 2)) (\<lambda>hip_y.
      bindE (py_sub nose_y hip_y) (\<lambda>diff.
      bindE (py_abs diff) (\<lambda>dist.
      bindE (py_lt_num dist 20) (\<lambda>close.
      if close then Inr True else Inr False)))))"
  from r ne nh have run:
    "bindE (getitem p ''nose'') (\<lambda>nose.
     bindE (subscript nose 1) (\<lambda>nose_y.
     bindE (getitem p ''left_hip'') (\<lambda>left_hip.
     bindE (subscript left_hip 1) (\<lambda>left_hip_y.
     bindE (getitem p ''right_hip'') (\<lambda>right_hip.
     bindE (subscript right_hip 1) (\<lambda>right_hip_y.
     ?tail nose_y left_hip_y right_hip_y)))))) = Inr r"
    by (simp add: confirm_fall_def)
  from read_y_Inr [OF run] obtain wn where
    wn: "has_keypoint_y p ''nose'' \<or> (\<forall>y. wn \<noteq> VNum y)" and
    run1: "bindE (getitem p ''left_hip'') (\<lambda>left_hip.
     bindE (subscript left_hip 1) (\<lambda>left_hip_y.
     bindE (getitem p ''right_hip'') (\<lambda>right_hip.
     bindE (subscript right_hip 1) (\<lambda>right_hip_y.
     ?tail wn left_hip_y right_hip_y)))) = Inr r"
    by blast
  from read_y_Inr [OF run1] obtain wl where
    wl: "has_keypoint_y p ''left_hip'' \<or> (\<forall>y. wl \<noteq> VNum y)" and
    run2: "bindE (getitem p ''right_hip'') (\<lambda>right_hip.
     bindE (subscript right_hip 1) (\<lambda>right_hip_y.
     ?tail wn wl right_hip_y)) = Inr r"
    by blast
  from read_y_Inr [OF run2] obtain wr where
    wr: "has_keypoint_y p ''right_hip'' \<or> (\<forall>y. wr \<noteq> VNum y)" and
    run3: "?tail wn wl wr = Inr r"
    by blast
  from arith_needs_numbers [OF run3] wn wl wr neg show False
    by blast
qed


text \<open>
  C2. \<open>_confirm_fall\<close> returns \<open>False\<close> for the pose \<open>None\<close>; it returns \<open>True\<close> for
  every pose whose orientation is \<open>horizontal\<close>, whatever its keypoints are (or whether
  it has any); and for any other pose that holds the keypoints \<open>nose\<close>, \<open>left_hip\<close> and
  \<open>right_hip\<close> it returns \<open>True\<close> exactly when the nose's y is less than 20 away from
  the mean of the two hips' y.
\<close>

theorem confirm_fall_cases:
  "confirm_fall None = Inr False
   \<and> (map_of p ''orientation'' = Some (VStr ''horizontal'') \<longrightarrow> confirm_fall (Some p) = Inr True)
   \<and> (map_of p ''orientation'' \<noteq> Some (VStr ''horizontal'')
        \<and> map_of p ''nose'' = Some (VList (nx # VNum nose_y # nrest))
        \<and> map_of p ''left_hip'' = Some (VList (lx # VNum left_y # lrest))
        \<and> map_of p ''right_hip'' = Some (VList (rx # VNum right_y # rrest))
      \<longrightarrow> confirm_fall (Some p) = Inr (\<bar>nose_y - (left_y + right_y) / 2\<bar> < 20))"
proof -
  have a: "confirm_fall None = Inr False"
    by (simp add: confirm_fall_def)
  have b: "confirm_fall (Some p) = Inr True"
    if "map_of p ''orientation'' = Some (VStr ''horizontal'')"
    using that map_of_Some_nonempty [OF that] by (simp add: confirm_fall_def)
  from a b confirm_fall_keypoints [of p nx nose_y nrest lx left_y lrest rx right_y rrest]
  show ?thesis
    by blast
qed

theorem confirm_fall_cases_witness:
  "confirm_fall (Some (estimate_pose 1 None (0, 0, 0, 0))) = Inr True
   \<and> confirm_fall (Some (estimate_pose 0 None (0, 0, 0, 0))) = Inr False
   \<and> confirm_fall (Some [(''nose'', VList [VNum 150, VNum 280]),
                         (''left_hip'', VList [VNum 140, VNum 285]),
                         (''right_hip'', VList [VNum 160, VNum 285]),
                         (''orientation'', VStr ''vertical'')]) = Inr True"
  using confirm_fall_cases [of "estimate_pose 1 None (0, 0, 0, 0)"]
    confirm_fall_cases [of "estimate_pose 0 None (0, 0, 0, 0)" "VNum 150" 120 "[]" "VNum 145" 200 "[]" "VNum 155" 200 "[]"]
    confirm_fall_cases [of "[(''nose'', VList [VNum 150, VNum 280]),
                         (''left_hip'', VList [VNum 140, VNum 285]),
                         (''right_hip'', VList [VNum 160, VNum 285]),
                         (''orientation'', VStr ''vertical'')]" "VNum 150" 280 "[]" "VNum 140" 285 "[]" "VNum 160" 285 "[]"]
  by (simp add: estimate_pose_def)

text \<open>
  C10. \<open>_confirm_fall\<close> returns without an exception exactly when the pose is \<open>None\<close>
  or empty, or its orientation is \<open>horizontal\<close>, or each of \<open>nose\<close>, \<open>left_hip\<close> and
  \<open>right_hip\<close> holds a coordinate list with a number at index 1. A non-empty pose of
  any other shape makes the function raise (a \<open>KeyError\<close> for a missing keypoint, as in
  the pose \<open>{'orientation': 'vertical'}\<close>) instead of returning \<open>False\<close>.
\<close>

theorem confirm_fall_exception_free_iff:
  "((\<exists>r. confirm_fall pose_data = Inr r) \<longleftrightarrow>
      (pose_data = None \<or> pose_data = Some []
       \<or> (\<exists>p. pose_data = Some p
             \<and> (map_of p ''orientation'' = Some (VStr ''horizontal'')
                  \<or> (has_keypoint_y p ''nose'' \<and> has_keypoint_y p ''left_hip''
                       \<and> has_keypoint_y p ''right_hip'')))))
   \<and> (\<forall>p. pose_data = Some p \<and> p \<noteq> []
            \<and> map_of p ''orientation'' \<noteq> Some (VStr ''horizontal'')
            \<and> \<not> (has_keypoint_y p ''nose'' \<and> has_keypoint_y p ''left_hip''
                     \<and> has_keypoint_y p ''right_hip'')
          \<longrightarrow> (\<exists>e. confirm_fall pose_data = Inl e))"
proof -
  have ok: "\<exists>r. confirm_fall (Some p) = Inr r"
    if "has_keypoint_y p ''nose''" "has_keypoint_y p ''left_hip''" "has_keypoint_y p ''right_hip''"
      and nh: "map_of p ''orientation'' \<noteq> Some (VStr ''horizontal'')" for p
  proof -
    from that(1-3) [THEN has_keypoint_yD] obtain nx ny nr lx ly lr rx ry rr where
      "map_of p ''nose'' = Some (VList (nx # VNum ny # nr))"
      "map_of p ''left_hip'' = Some (VList (lx # VNum ly # lr))"
      "map_of p ''right_hip'' = Some (VList (rx # VNum ry # rr))"
      by blast
    from confirm_fall_keypoints [OF nh this] show ?thesis
      by blast
  qed
  have hor: "confirm_fall (Some p) = Inr True"
    if h: "map_of p ''orientation'' = Some (VStr ''horizontal'')" for p
    using h map_of_Some_nonempty [OF h] by (simp add: confirm_fall_def)
  have bad: "\<exists>e. confirm_fall (Some p) = Inl e"
    if "p \<noteq> []" "map_of p ''orientation'' \<noteq> Some (VStr ''horizontal'')"
      "\<not> (has_keypoint_y p ''nose'' \<and> has_keypoint_y p ''left_hip''
            \<and> has_keypoint_y p ''right_hip'')" for p
  proof (cases "confirm_fall (Some p)")
    case (Inl e)
    then show ?thesis by blast
  next
    case (Inr r)
    from confirm_fall_Inr_keypoints [OF that(1,2) Inr] that(3) show ?thesis
      by blast
  qed
  have iff: "(\<exists>r. confirm_fall pose_data = Inr r) \<longleftrightarrow>
      (pose_data = None \<or> pose_data = Some []
       \<or> (\<exists>p. pose_data = Some p
             \<and> (map_of p ''orientation'' = Some (VStr ''horizontal'')
                  \<or> (has_keypoint_y p ''nose'' \<and> has_keypoint_y p ''left_hip''
                       \<and> has_keypoint_y p ''right_hip''))))"
  proof (cases pose_data)
    case None
    then show ?thesis by (auto simp: confirm_fall_def)
  next
    case (Some p)
    show ?thesis
    proof (cases "p = []")
      case True
      with Some show ?thesis by (auto simp: confirm_fall_def)
    next
      case False
      show ?thesis
      proof (cases "map_of p ''orientation'' = Some (VStr ''horizontal'')")
        case True
        with Some hor [OF True] show ?thesis by auto
      next
        case nh: False
        show ?thesis
        proof (cases "has_keypoint_y p ''nose'' \<and> has_keypoint_y p ''left_hip''
                       \<and> has_keypoint_y p ''right_hip''")
          case True
          with ok [of p] nh Some show ?thesis by auto
        next
          case nk: False
          from bad [OF False nh nk] Some False nh nk show ?thesis by auto
        qed
      qed
    qed
  qed
  from iff bad show ?thesis
    by blast
qed

theorem confirm_fall_exception_free_iff_witness:
  "confirm_fall (Some [(''orientation'', VStr ''vertical'')]) = Inl (KeyError ''nose'')
   \<and> (\<exists>e. confirm_fall (Some [(''orientation'', VStr ''vertical'')]) = Inl e)
   \<and> \<not> has_keypoint_y [(''orientation'', VStr ''vertical'')] ''nose''"
  using confirm_fall_exception_free_iff [of "Some [(''orientation'', VStr ''vertical'')]"]
  by (simp add: confirm_fall_def getitem_def bindE_def has_keypoint_y_def)

section \<open>Properties of the person detector\<close>

lemma detect_persons_degraded_eq:
  assumes "frame = None \<or> \<not> model_loaded \<or> (\<exists>f e. frame = Some f \<and> inference f = Inl e)"
  shows "detect_persons model_loaded inference frame r1 r2 = mock_detection r1 r2"
  using assms by (auto simp: detect_persons_def split: option.splits sum.splits)

text \<open>
  C5, as the specification states it: a degraded result is deterministic and can be told
  apart from real inference output. Neither holds. With no model loaded and no frame, two
  calls differ when the random draws differ (another confidence, or no detection at all),
  and the degraded result is a plain detection list with no flag: a loaded model whose
  inference yields the same detection returns the very same value.
\<close>

theorem detect_persons_degraded_counterexample:
  "detect_persons False (\<lambda>f. Inl InferenceError) (None :: unit option) (1 / 2) 0
     \<noteq> detect_persons False (\<lambda>f. Inl InferenceError) (None :: unit option) (1 / 2) (1 / 2)
   \<and> detect_persons False (\<lambda>f. Inl InferenceError) (None :: unit option) 0 0
     \<noteq> detect_persons False (\<lambda>f. Inl InferenceError) (None :: unit option) (1 / 2) 0
   \<and> detect_persons False (\<lambda>f. Inl InferenceError) (None :: unit option) (1 / 2) 0
     = detect_persons True
         (\<lambda>f. Inr [\<lparr>d_bbox = (100, 100, 200, 300), d_confidence = 85 / 100, d_class = ''person''\<rparr>])
         (Some ()) (1 / 2) 0"
  by (simp add: detect_persons_def mock_detection_def)

text \<open>
  C5, amended. When the frame is \<open>None\<close>, the model is not loaded or inference raises,
  \<open>detect_persons\<close> returns (and raises nothing) the output of \<open>_mock_detection\<close>, which
  the two random draws determine: no detection when the first draw is at most 0.3,
  otherwise one detection of class \<open>person\<close> with box \<open>[100, 100, 200, 300]\<close> and
  confidence 0.85 + (second draw) * 0.14.
\<close>

theorem detect_persons_degraded:
  assumes "frame = None \<or> \<not> model_loaded \<or> (\<exists>f e. frame = Some f \<and> inference f = Inl e)"
  shows "detect_persons model_loaded inference frame r1 r2 = mock_detection r1 r2
       \<and> (r1 \<le> 3 / 10 \<longrightarrow> detect_persons model_loaded inference frame r1 r2 = [])
       \<and> (r1 > 3 / 10 \<longrightarrow>
            detect_persons model_loaded inference frame r1 r2 =
              [\<lparr>d_bbox = (100, 100, 200, 300),
                d_confidence = 85 / 100 + r2 * (14 / 100),
                d_class = ''person''\<rparr>])"
  unfolding detect_persons_degraded_eq [OF assms]
  by (simp add: mock_detection_def)

theorem detect_persons_degraded_witness:
  "detect_persons True (\<lambda>f. Inl InferenceError) (Some ()) (1 / 2) 0
     = [\<lparr>d_bbox = (100, 100, 200, 300), d_confidence = 85 / 100, d_class = ''person''\<rparr>]
   \<and> detect_persons True (\<lambda>f. Inl InferenceError) (Some ()) (1 / 4) 0 = []"
  using detect_persons_degraded [of "Some ()" True "\<lambda>f. Inl InferenceError" "1 / 2" 0]
    detect_persons_degraded [of "Some ()" True "\<lambda>f. Inl InferenceError" "1 / 4" 0]
  by (simp add: detect_persons_def mock_detection_def)

section \<open>Properties of the pipeline orchestrator\<close>

lemma mock_box_not_suspect: "is_suspect (100, 100, 200, 300) = Inr False"
  by (simp add: bindE_def truediv_def)

text \<open>
  C9. Every detection of the detector's mock path has the box \<open>[100, 100, 200, 300]\<close>,
  which the suspect filter rejects. So when the detector is in mock mode (no frame, no
  model, or inference raised), \<open>process_frame\<close> returns a result, makes no pose
  estimation at all (the call count is 0), leaves \<open>fall_detected\<close> false and
  \<open>event_details\<close> \<open>None\<close>, and every detection it lists is not suspect and has no pose.
\<close>

theorem process_frame_mock_mode:
  assumes "frame = None \<or> \<not> model_loaded \<or> (\<exists>f e. frame = Some f \<and> inference f = Inl e)"
  shows "(\<forall>d \<in> set (detect_persons model_loaded inference frame r1 r2).
            d_bbox d = (100, 100, 200, 300))
       \<and> is_suspect (100, 100, 200, 300) = Inr False
       \<and> (\<exists>res. process_frame model_loaded inference r1 r2 pose_service now cam frame
                   = Inr (res, 0)
              \<and> \<not> fall_detected res
              \<and> event_details res = None
              \<and> (\<forall>i \<in> set (detections res).
                    di_bbox i = (100, 100, 200, 300) \<and> \<not> di_is_suspect i \<and> di_pose i = None))"
proof (cases "r1 > 3 / 10")
  case True
  then show ?thesis
    unfolding process_frame_def detect_persons_degraded_eq [OF assms]
    by (simp add: mock_detection_def process_person_def mock_box_not_suspect bindE_def
        del: is_suspect.simps)
next
  case False
  then show ?thesis
    unfolding process_frame_def detect_persons_degraded_eq [OF assms]
    by (simp add: mock_detection_def mock_box_not_suspect del: is_suspect.simps)
qed

theorem process_frame_mock_mode_witness:
  "process_frame False (\<lambda>f. Inl InferenceError) (1 / 2) (1 / 2)
      (mock_pose_service (\<lambda>n. 9 / 10)) 0 ''cam0'' (Some ())
    = Inr (\<lparr>camera_id = ''cam0'', timestamp = 0,
            detections = [\<lparr>di_bbox = (100, 100, 200, 300), di_is_suspect = False, di_pose = None\<rparr>],
            fall_detected = False, event_details = None\<rparr>, 0)"
  using process_frame_mock_mode [of "Some ()" False "\<lambda>f. Inl InferenceError" "1 / 2" "1 / 2"
      "mock_pose_service (\<lambda>n. 9 / 10)" 0 "''cam0''"]
  by (simp add: process_frame_def detect_persons_def mock_detection_def process_person_def
      mock_box_not_suspect bindE_def del: is_suspect.simps)

lemma bindE_Inr_iff: "bindE m f = Inr y \<longleftrightarrow> (\<exists>x. m = Inr x \<and> f x = Inr y)"
  by (cases m) (simp_all add: bindE_def)

lemma mean_confidence_Inr:
  assumes "bindE (py_add (VNum c) v) (\<lambda>total. bindE (py_truediv total (VNum 2)) f) = Inr y"
  shows "\<exists>pc. v = VNum pc \<and> f (VNum ((c + pc) / 2)) = Inr y"
  using assms by (cases v) (simp_all add: bindE_def truediv_def)

lemma confirm_fall_True_Some: "confirm_fall pose_data = Inr True \<Longrightarrow> \<exists>p. pose_data = Some p"
  by (cases pose_data) (simp_all add: confirm_fall_def)

lemma process_person_cases:
  assumes "process_person pose_service frame (res, calls) person = Inr (res', calls')"
  shows "(is_suspect (d_bbox person) = Inr False \<and> calls' = calls
          \<and> res' = res\<lparr>detections := detections res @
                [\<lparr>di_bbox = d_bbox person, di_is_suspect = False, di_pose = None\<rparr>]\<rparr>)
       \<or> (is_suspect (d_bbox person) = Inr True \<and> calls' = Suc calls
          \<and> confirm_fall (pose_service calls frame (d_bbox person)) = Inr False
          \<and> res' = res\<lparr>detections := detections res @
                [\<lparr>di_bbox = d_bbox person, di_is_suspect = True,
                  di_pose = pose_service calls frame (d_bbox person)\<rparr>]\<rparr>)
       \<or> (is_suspect (d_bbox person) = Inr True \<and> calls' = Suc calls
          \<and> confirm_fall (pose_service calls frame (d_bbox person)) = Inr True
          \<and> (\<exists>p pc. pose_service calls frame (d_bbox person) = Some p
                \<and> map_of p ''confidence'' = Some (VNum pc)
                \<and> res' = res\<lparr>fall_detected := True,
                      event_details := Some \<lparr>ev_confidence = VNum ((d_confidence person + pc) / 2),
                                             ev_bbox = d_bbox person, ev_pose = Some p\<rparr>,
                      detections := detections res @
                        [\<lparr>di_bbox = d_bbox person, di_is_suspect = True, di_pose = Some p\<rparr>]\<rparr>))"
proof -
  from assms obtain suspect where s: "is_suspect (d_bbox person) = Inr suspect"
    by (auto simp: process_person_def Let_def bindE_Inr_iff)
  show ?thesis
  proof (cases suspect)
    case False
    with assms s show ?thesis
      by (simp add: process_person_def Let_def bindE_def)
  next
    case True
    let ?pose = "pose_service calls frame (d_bbox person)"
    from assms s True obtain confirmed where c: "confirm_fall ?pose = Inr confirmed"
      by (auto simp: process_person_def Let_def bindE_Inr_iff)
    show ?thesis
    proof (cases confirmed)
      case False
      with assms s True c show ?thesis
        by (simp add: process_person_def Let_def bindE_def)
    next
      case ct: True
      with c have "confirm_fall ?pose = Inr True"
        by simp
      from confirm_fall_True_Some [OF this] obtain p where p: "?pose = Some p"
        by blast
      from assms s True c ct p have run:
        "bindE (getitem p ''confidence'') (\<lambda>pose_confidence.
         bindE (py_add (VNum (d_confidence person)) pose_confidence) (\<lambda>total.
         bindE (py_truediv total (VNum 2)) (\<lambda>mean.
           Inr (res\<lparr>fall_detected := True,
                    event_details := Some \<lparr>ev_confidence = mean, ev_bbox = d_bbox person,
                                            ev_pose = Some p\<rparr>,
                    detections := detections res @
                      [\<lparr>di_bbox = d_bbox person, di_is_suspect = True, di_pose = Some p\<rparr>]\<rparr>,
                Suc calls)))) = Inr (res', calls')"
        by (simp add: process_person_def Let_def bindE_def)
      then obtain v where v: "getitem p ''confidence'' = Inr v"
        and run2: "bindE (py_add (VNum (d_confidence person)) v) (\<lambda>total.
         bindE (py_truediv total (VNum 2)) (\<lambda>mean.
           Inr (res\<lparr>fall_detected := True,
                    event_details := Some \<lparr>ev_confidence = mean, ev_bbox = d_bbox person,
                                            ev_pose = Some p\<rparr>,
                    detections := detections res @
                      [\<lparr>di_bbox = d_bbox person, di_is_suspect = True, di_pose = Some p\<rparr>]\<rparr>,
                Suc calls))) = Inr (res', calls')"
        unfolding bindE_Inr_iff by blast
      from mean_confidence_Inr [OF run2] obtain pc where pc: "v = VNum pc"
        and fin: "Inr (res\<lparr>fall_detected := True,
                    event_details := Some \<lparr>ev_confidence = VNum ((d_confidence person + pc) / 2),
                                            ev_bbox = d_bbox person, ev_pose = Some p\<rparr>,
                    detections := detections res @
                      [\<lparr>di_bbox = d_bbox person, di_is_suspect = True, di_pose = Some p\<rparr>]\<rparr>,
                Suc calls) = (Inr (res', calls') :: error + (frame_result \<times> nat))"
        by blast
      from v pc have "map_of p ''confidence'' = Some (VNum pc)"
        by (simp add: getitem_def split: option.splits)
      with fin s True c ct p show ?thesis
        by simp
    qed
  qed
qed

lemma process_persons_append:
  "process_persons pose_service frame st (xs @ ys) =
     bindE (process_persons pose_service frame st xs)
       (\<lambda>st'. process_persons pose_service frame st' ys)"
proof (induction xs arbitrary: st)
  case Nil
  show ?case by (simp add: bindE_def)
next
  case (Cons x xs)
  show ?case
    by (cases "process_person pose_service frame st x") (simp_all add: bindE_def Cons.IH)
qed

lemma process_persons_snoc:
  assumes "process_persons pose_service frame st persons = Inr st1"
  shows "process_persons pose_service frame st (persons @ [person]) =
           process_person pose_service frame st1 person"
  using assms by (simp add: process_persons_append bindE_def split: sum.splits)


lemma process_person_flag_event:
  assumes "process_person pose_service frame (res, calls) person = Inr (res', calls')"
    and "fall_detected res \<longleftrightarrow> event_details res \<noteq> None"
  shows "fall_detected res' \<longleftrightarrow> event_details res' \<noteq> None"
  using process_person_cases [OF assms(1)] assms(2) by auto

lemma process_person_pose_suspect:
  assumes "process_person pose_service frame (res, calls) person = Inr (res', calls')"
    and "\<forall>d \<in> set (detections res). di_pose d \<noteq> None \<longrightarrow> di_is_suspect d"
  shows "\<forall>d \<in> set (detections res'). di_pose d \<noteq> None \<longrightarrow> di_is_suspect d"
  using process_person_cases [OF assms(1)] assms(2) by auto

lemma process_person_event_source:
  assumes "process_person pose_service frame (res, calls) person = Inr (res', calls')"
    and "fall_detected res \<longrightarrow>
           (\<exists>d \<in> S. \<exists>p pc.
              event_details res = Some \<lparr>ev_confidence = VNum ((d_confidence d + pc) / 2),
                                         ev_bbox = d_bbox d, ev_pose = Some p\<rparr>
              \<and> map_of p ''confidence'' = Some (VNum pc)
              \<and> \<lparr>di_bbox = d_bbox d, di_is_suspect = True, di_pose = Some p\<rparr>
                  \<in> set (detections res))"
  shows "fall_detected res' \<longrightarrow>
           (\<exists>d \<in> insert person S. \<exists>p pc.
              event_details res' = Some \<lparr>ev_confidence = VNum ((d_confidence d + pc) / 2),
                                          ev_bbox = d_bbox d, ev_pose = Some p\<rparr>
              \<and> map_of p ''confidence'' = Some (VNum pc)
              \<and> \<lparr>di_bbox = d_bbox d, di_is_suspect = True, di_pose = Some p\<rparr>
                  \<in> set (detections res'))"
  using process_person_cases [OF assms(1)]
proof (elim disjE conjE exE)
  assume "res' = res\<lparr>detections := detections res @
            [\<lparr>di_bbox = d_bbox person, di_is_suspect = False, di_pose = None\<rparr>]\<rparr>"
  with assms(2) show ?thesis by auto
next
  assume "res' = res\<lparr>detections := detections res @
            [\<lparr>di_bbox = d_bbox person, di_is_suspect = True,
              di_pose = pose_service calls frame (d_bbox person)\<rparr>]\<rparr>"
  with assms(2) show ?thesis by auto
next
  fix p pc
  assume "map_of p ''confidence'' = Some (VNum pc)"
    and "res' = res\<lparr>fall_detected := True,
                      event_details := Some \<lparr>ev_confidence = VNum ((d_confidence person + pc) / 2),
                                             ev_bbox = d_bbox person, ev_pose = Some p\<rparr>,
                      detections := detections res @
                        [\<lparr>di_bbox = d_bbox person, di_is_suspect = True, di_pose = Some p\<rparr>]\<rparr>"
  then show ?thesis by auto
qed

lemma process_persons_invariants:
  assumes "process_persons pose_service frame (res, calls) persons = Inr (res', calls')"
    and "fall_detected res \<longleftrightarrow> event_details res \<noteq> None"
    and "\<forall>d \<in> set (detections res). di_pose d \<noteq> None \<longrightarrow> di_is_suspect d"
    and "fall_detected res \<longrightarrow>
           (\<exists>d \<in> S. \<exists>p pc.
              event_details res = Some \<lparr>ev_confidence = VNum ((d_confidence d + pc) / 2),
                                         ev_bbox = d_bbox d, ev_pose = Some p\<rparr>
              \<and> map_of p ''confidence'' = Some (VNum pc)
              \<and> \<lparr>di_bbox = d_bbox d, di_is_suspect = True, di_pose = Some p\<rparr>
                  \<in> set (detections res))"
  shows "(fall_detected res' \<longleftrightarrow> event_details res' \<noteq> None)
       \<and> (\<forall>d \<in> set (detections res'). di_pose d \<noteq> None \<longrightarrow> di_is_suspect d)
       \<and> (fall_detected res' \<longrightarrow>
           (\<exists>d \<in> S \<union> set persons. \<exists>p pc.
              event_details res' = Some \<lparr>ev_confidence = VNum ((d_confidence d + pc) / 2),
                                          ev_bbox = d_bbox d, ev_pose = Some p\<rparr>
              \<and> map_of p ''confidence'' = Some (VNum pc)
              \<and> \<lparr>di_bbox = d_bbox d, di_is_suspect = True, di_pose = Some p\<rparr>
                  \<in> set (detections res')))"
  using assms
proof (induction persons arbitrary: res calls S)
  case Nil
  then show ?case by simp
next
  case (Cons person persons)
  from Cons.prems(1) obtain res1 calls1 where
    step: "process_person pose_service frame (res, calls) person = Inr (res1, calls1)"
    and rest: "process_persons pose_service frame (res1, calls1) persons = Inr (res', calls')"
    by (auto simp: bindE_Inr_iff)
  note a = process_person_flag_event [OF step Cons.prems(2)]
  note b = process_person_pose_suspect [OF step Cons.prems(3)]
  note c = process_person_event_source [OF step Cons.prems(4)]
  from Cons.IH [OF rest a b c] show ?case
    by simp
qed

lemma is_suspect_total: "\<exists>r. is_suspect b = Inr r"
proof -
  obtain x1 y1 x2 y2 where b: "b = (x1, y1, x2, y2)"
    by (cases b) auto
  show ?thesis
  proof (cases "y1 = y2")
    case True
    with b show ?thesis by auto
  next
    case False
    from is_suspect_nonzero_height [OF False, of 640 480 x1 x2] b show ?thesis
      by simp
  qed
qed

lemma confirm_fall_estimate_pose:
  "confirm_fall (Some (estimate_pose r frame bbox)) = Inr (r > 8 / 10)"
  by (simp add: confirm_fall_def estimate_pose_def getitem_def bindE_def truediv_def)

lemma estimate_pose_confidence:
  "getitem (estimate_pose r frame bbox) ''confidence'' =
     Inr (VNum (if r > 8 / 10 then 9 / 10 else 95 / 100))"
  by (simp add: estimate_pose_def getitem_def)

lemma process_person_mock_pose_total:
  "\<exists>st'. process_person (mock_pose_service rnd) frame st person = Inr st'"
proof -
  obtain res calls where st: "st = (res, calls)"
    by (cases st) auto
  from is_suspect_total obtain suspect where "is_suspect (d_bbox person) = Inr suspect"
    by blast
  then show ?thesis
    unfolding st
    by (simp add: process_person_def mock_pose_service_def confirm_fall_estimate_pose
        estimate_pose_confidence bindE_def truediv_def Let_def)
qed

lemma process_persons_mock_pose_total:
  "\<exists>st'. process_persons (mock_pose_service rnd) frame st persons = Inr st'"
proof (induction persons arbitrary: st)
  case Nil
  show ?case by simp
next
  case (Cons person persons)
  from process_person_mock_pose_total [of rnd frame st person] obtain st1
    where "process_person (mock_pose_service rnd) frame st person = Inr st1"
    by blast
  with Cons.IH [of st1] show ?case
    by (simp add: bindE_def)
qed

lemma process_person_confirmed:
  assumes "is_suspect (d_bbox person) = Inr True"
    and "pose_service calls frame (d_bbox person) = Some p"
    and "confirm_fall (Some p) = Inr True"
    and "map_of p ''confidence'' = Some (VNum pc)"
  shows "process_person pose_service frame (res, calls) person =
           Inr (res\<lparr>fall_detected := True,
                    event_details := Some \<lparr>ev_confidence = VNum ((d_confidence person + pc) / 2),
                                           ev_bbox = d_bbox person, ev_pose = Some p\<rparr>,
                    detections := detections res @
                      [\<lparr>di_bbox = d_bbox person, di_is_suspect = True, di_pose = Some p\<rparr>]\<rparr>,
                Suc calls)"
  using assms by (simp add: process_person_def getitem_def bindE_def truediv_def Let_def)

lemma process_person_unconfirmed:
  assumes "is_suspect (d_bbox person) = Inr False
         \<or> (is_suspect (d_bbox person) = Inr True
            \<and> confirm_fall (pose_service calls frame (d_bbox person)) = Inr False)"
  shows "\<exists>res' calls'. process_person pose_service frame (res, calls) person = Inr (res', calls')
           \<and> fall_detected res' = fall_detected res
           \<and> event_details res' = event_details res"
  using assms by (auto simp: process_person_def bindE_def Let_def)

text \<open>
  C4. Whenever \<open>process_frame\<close> returns a result, whatever the detector and the pose
  estimator produced: \<open>fall_detected\<close> is true exactly when \<open>event_details\<close> is not
  \<open>None\<close>; every listed detection that has a pose is suspect; and when a fall is detected,
  \<open>event_details\<close> belongs to one of the detector's detections: it carries that
  detection's box and the pose estimated for it (listed with it under \<open>detections\<close>), and
  its confidence is the mean of the detection's confidence and the pose's confidence.
  With the repository's pose service the function always returns a result
  (\<open>process_persons_mock_pose_total\<close>); the witness is the end-to-end scenario of the
  specification, with confidence (0.85 + 0.9) / 2 = 0.875.
\<close>

theorem process_frame_invariants:
  assumes "process_frame model_loaded inference r1 r2 pose_service now cam frame
             = Inr (res, calls)"
  shows "(fall_detected res \<longleftrightarrow> event_details res \<noteq> None)
       \<and> (\<forall>d \<in> set (detections res). di_pose d \<noteq> None \<longrightarrow> di_is_suspect d)
       \<and> (fall_detected res \<longrightarrow>
           (\<exists>d \<in> set (detect_persons model_loaded inference frame r1 r2). \<exists>p pc.
              event_details res = Some \<lparr>ev_confidence = VNum ((d_confidence d + pc) / 2),
                                         ev_bbox = d_bbox d, ev_pose = Some p\<rparr>
              \<and> map_of p ''confidence'' = Some (VNum pc)
              \<and> \<lparr>di_bbox = d_bbox d, di_is_suspect = True, di_pose = Some p\<rparr>
                  \<in> set (detections res)))"
proof -
  let ?init = "\<lparr>camera_id = cam, timestamp = now, detections = [],
                 fall_detected = False, event_details = None\<rparr>"
  from assms have run:
    "process_persons pose_service frame (?init, 0)
       (detect_persons model_loaded inference frame r1 r2) = Inr (res, calls)"
    by (simp add: process_frame_def)
  from process_persons_invariants [OF run, of "{}"] show ?thesis
    by simp
qed


theorem process_frame_invariants_witness:
  "process_frame True
     (\<lambda>f. Inr [\<lparr>d_bbox = (140, 280, 160, 290), d_confidence = 85 / 100, d_class = ''person''\<rparr>])
     0 0 (mock_pose_service (\<lambda>n. 9 / 10)) 0 ''cam0'' (Some ())
   = Inr (\<lparr>camera_id = ''cam0'', timestamp = 0,
           detections = [\<lparr>di_bbox = (140, 280, 160, 290), di_is_suspect = True,
                          di_pose = Some (estimate_pose (9 / 10) (Some ()) (140, 280, 160, 290))\<rparr>],
           fall_detected = True,
           event_details = Some \<lparr>ev_confidence = VNum (875 / 1000),
                                  ev_bbox = (140, 280, 160, 290),
                                  ev_pose = Some (estimate_pose (9 / 10) (Some ()) (140, 280, 160, 290))\<rparr>\<rparr>,
          1)"
proof -
  have eq: "process_frame True
     (\<lambda>f. Inr [\<lparr>d_bbox = (140, 280, 160, 290), d_confidence = 85 / 100, d_class = ''person''\<rparr>])
     0 0 (mock_pose_service (\<lambda>n. 9 / 10)) 0 ''cam0'' (Some ())
   = Inr (\<lparr>camera_id = ''cam0'', timestamp = 0,
           detections = [\<lparr>di_bbox = (140, 280, 160, 290), di_is_suspect = True,
                          di_pose = Some (estimate_pose (9 / 10) (Some ()) (140, 280, 160, 290))\<rparr>],
           fall_detected = True,
           event_details = Some \<lparr>ev_confidence = VNum (875 / 1000),
                                  ev_bbox = (140, 280, 160, 290),
                                  ev_pose = Some (estimate_pose (9 / 10) (Some ()) (140, 280, 160, 290))\<rparr>\<rparr>,
          1)"
    by (simp add: process_frame_def detect_persons_def process_person_def mock_pose_service_def
        confirm_fall_def estimate_pose_def getitem_def bindE_def truediv_def Let_def)
  from process_frame_invariants [OF eq] eq show ?thesis
    by simp
qed

text \<open>
  C3, as the specification states it: \<open>event_details\<close> is set for the first confirmed fall
  only. The loop has no such guard: each confirmed fall assigns \<open>event_details\<close> anew. In
  a frame with two suspect detections whose poses both confirm a fall, the result holds the
  box, pose and confidence of the second detection, not of the first.
\<close>

theorem process_frame_first_confirmed_counterexample:
  "process_frame True
     (\<lambda>f. Inr [\<lparr>d_bbox = (140, 280, 160, 290), d_confidence = 85 / 100, d_class = ''person''\<rparr>,
               \<lparr>d_bbox = (300, 400, 400, 440), d_confidence = 6 / 10, d_class = ''person''\<rparr>])
     0 0
     (\<lambda>n frame bbox. Some [(''orientation'', VStr ''horizontal''),
                           (''confidence'', VNum (if n = 0 then 9 / 10 else 5 / 10))])
     0 ''cam0'' (Some ())
   = Inr (\<lparr>camera_id = ''cam0'', timestamp = 0,
           detections =
             [\<lparr>di_bbox = (140, 280, 160, 290), di_is_suspect = True,
               di_pose = Some [(''orientation'', VStr ''horizontal''),
                               (''confidence'', VNum (9 / 10))]\<rparr>,
              \<lparr>di_bbox = (300, 400, 400, 440), di_is_suspect = True,
               di_pose = Some [(''orientation'', VStr ''horizontal''),
                               (''confidence'', VNum (5 / 10))]\<rparr>],
           fall_detected = True,
           event_details =
             Some \<lparr>ev_confidence = VNum (55 / 100), ev_bbox = (300, 400, 400, 440),
                   ev_pose = Some [(''orientation'', VStr ''horizontal''),
                                   (''confidence'', VNum (5 / 10))]\<rparr>\<rparr>,
          2)
   \<and> confirm_fall (Some [(''orientation'', VStr ''horizontal''),
                         (''confidence'', VNum (9 / 10))]) = Inr True
   \<and> confirm_fall (Some [(''orientation'', VStr ''horizontal''),
                         (''confidence'', VNum (5 / 10))]) = Inr True
   \<and> (140, 280, 160, 290) \<noteq> ((300, 400, 400, 440) :: bbox)"
  by (simp add: process_frame_def detect_persons_def process_person_def
      confirm_fall_def getitem_def bindE_def truediv_def Let_def)

text \<open>
  C3, amended. Every confirmed fall overwrites \<open>event_details\<close>, in detector output
  order. Whatever the earlier detections of the frame gave (confirmed falls included), if
  the last detection is suspect and its pose confirms a fall, the returned
  \<open>event_details\<close> holds the confidence, box and pose of that last detection; and a
  detection that is not suspect, or whose pose does not confirm, leaves \<open>fall_detected\<close>
  and \<open>event_details\<close> as the detections before it left them. So with two or more
  confirmed falls the result describes the last one.
\<close>

theorem process_frame_last_confirmed_wins:
  assumes "detect_persons model_loaded inference frame r1 r2 = earlier @ [person]"
    and "process_persons pose_service frame
           (\<lparr>camera_id = cam, timestamp = now, detections = [],
             fall_detected = False, event_details = None\<rparr>, 0) earlier = Inr (res, calls)"
  shows "(is_suspect (d_bbox person) = Inr True
          \<and> pose_service calls frame (d_bbox person) = Some p
          \<and> confirm_fall (Some p) = Inr True
          \<and> map_of p ''confidence'' = Some (VNum pc)
        \<longrightarrow> (\<exists>res'. process_frame model_loaded inference r1 r2 pose_service now cam frame
                       = Inr (res', Suc calls)
               \<and> fall_detected res'
               \<and> event_details res' =
                   Some \<lparr>ev_confidence = VNum ((d_confidence person + pc) / 2),
                         ev_bbox = d_bbox person, ev_pose = Some p\<rparr>))
       \<and> (is_suspect (d_bbox person) = Inr False
          \<or> (is_suspect (d_bbox person) = Inr True
             \<and> confirm_fall (pose_service calls frame (d_bbox person)) = Inr False)
        \<longrightarrow> (\<exists>res' calls'. process_frame model_loaded inference r1 r2 pose_service now cam frame
                       = Inr (res', calls')
               \<and> fall_detected res' = fall_detected res
               \<and> event_details res' = event_details res))"
proof -
  have pf: "process_frame model_loaded inference r1 r2 pose_service now cam frame =
              process_person pose_service frame (res, calls) person"
    using process_persons_snoc [OF assms(2)] by (simp add: process_frame_def assms(1))
  show ?thesis
    unfolding pf
    using process_person_confirmed [of person pose_service calls frame p pc res]
      process_person_unconfirmed [of person pose_service calls frame res]
    by auto
qed


theorem process_frame_last_confirmed_wins_witness:
  "(\<exists>res'. process_frame True
       (\<lambda>f. Inr [\<lparr>d_bbox = (140, 280, 160, 290), d_confidence = 85 / 100, d_class = ''person''\<rparr>,
                 \<lparr>d_bbox = (300, 400, 400, 440), d_confidence = 6 / 10, d_class = ''person''\<rparr>])
       0 0 (mock_pose_service (\<lambda>n. 9 / 10)) 0 ''cam0'' (Some ()) = Inr (res', 2)
     \<and> fall_detected res'
     \<and> event_details res' =
         Some \<lparr>ev_confidence = VNum (75 / 100), ev_bbox = (300, 400, 400, 440),
               ev_pose = Some (estimate_pose (9 / 10) (Some ()) (300, 400, 400, 440))\<rparr>)
   \<and> (\<exists>res' calls'. process_frame True
       (\<lambda>f. Inr [\<lparr>d_bbox = (140, 280, 160, 290), d_confidence = 85 / 100, d_class = ''person''\<rparr>,
                 \<lparr>d_bbox = (100, 100, 200, 300), d_confidence = 6 / 10, d_class = ''person''\<rparr>])
       0 0 (mock_pose_service (\<lambda>n. 9 / 10)) 0 ''cam0'' (Some ()) = Inr (res', calls')
     \<and> fall_detected res'
     \<and> event_details res' =
         Some \<lparr>ev_confidence = VNum (875 / 1000), ev_bbox = (140, 280, 160, 290),
               ev_pose = Some (estimate_pose (9 / 10) (Some ()) (140, 280, 160, 290))\<rparr>)"
proof -
  let ?d1 = "\<lparr>d_bbox = (140, 280, 160, 290), d_confidence = 85 / 100, d_class = ''person''\<rparr>"
  let ?d2 = "\<lparr>d_bbox = (300, 400, 400, 440), d_confidence = 6 / 10, d_class = ''person''\<rparr>"
  let ?d3 = "\<lparr>d_bbox = (100, 100, 200, 300), d_confidence = 6 / 10, d_class = ''person''\<rparr>"
  let ?ps = "mock_pose_service (\<lambda>n. 9 / 10) :: unit pose_service"
  let ?p1 = "estimate_pose (9 / 10) (Some ()) (140, 280, 160, 290)"
  let ?res = "\<lparr>camera_id = ''cam0'', timestamp = 0,
           detections = [\<lparr>di_bbox = (140, 280, 160, 290), di_is_suspect = True,
                          di_pose = Some ?p1\<rparr>],
           fall_detected = True,
           event_details = Some \<lparr>ev_confidence = VNum (875 / 1000),
                                  ev_bbox = (140, 280, 160, 290), ev_pose = Some ?p1\<rparr>\<rparr>"
  have det2: "detect_persons True (\<lambda>f. Inr [?d1, ?d2]) (Some ()) 0 0 = [?d1] @ [?d2]"
    by (simp add: detect_persons_def)
  have det3: "detect_persons True (\<lambda>f. Inr [?d1, ?d3]) (Some ()) 0 0 = [?d1] @ [?d3]"
    by (simp add: detect_persons_def)
  have run: "process_persons ?ps (Some ())
           (\<lparr>camera_id = ''cam0'', timestamp = 0, detections = [],
             fall_detected = False, event_details = None\<rparr>, 0) [?d1] = Inr (?res, 1)"
    by (simp add: process_person_def mock_pose_service_def
        confirm_fall_def estimate_pose_def getitem_def bindE_def truediv_def Let_def)
  have s2: "is_suspect (d_bbox ?d2) = Inr True"
    by (simp add: bindE_def truediv_def)
  have s3: "is_suspect (d_bbox ?d3) = Inr False"
    by (simp add: bindE_def truediv_def)
  have p2: "?ps 1 (Some ()) (d_bbox ?d2) = Some (estimate_pose (9 / 10) (Some ()) (300, 400, 400, 440))"
    by (simp add: mock_pose_service_def)
  have c2: "confirm_fall (Some (estimate_pose (9 / 10) (Some ()) (300, 400, 400, 440))) = Inr True"
    by (simp add: confirm_fall_def estimate_pose_def)
  have k2: "map_of (estimate_pose (9 / 10) (Some ()) (300, 400, 400, 440)) ''confidence''
              = Some (VNum (9 / 10))"
    by (simp add: estimate_pose_def)
  from process_frame_last_confirmed_wins [OF det2 run,
      of "estimate_pose (9 / 10) (Some ()) (300, 400, 400, 440)" "9 / 10"] s2 p2 c2 k2
  have a: "\<exists>res'. process_frame True (\<lambda>f. Inr [?d1, ?d2])
       0 0 ?ps 0 ''cam0'' (Some ()) = Inr (res', 2)
     \<and> fall_detected res'
     \<and> event_details res' =
         Some \<lparr>ev_confidence = VNum (75 / 100), ev_bbox = (300, 400, 400, 440),
               ev_pose = Some (estimate_pose (9 / 10) (Some ()) (300, 400, 400, 440))\<rparr>"
    by (simp add: numeral_2_eq_2)
  from process_frame_last_confirmed_wins [OF det3 run] s3
  have b: "\<exists>res' calls'. process_frame True (\<lambda>f. Inr [?d1, ?d3])
       0 0 ?ps 0 ''cam0'' (Some ()) = Inr (res', calls')
     \<and> fall_detected res'
     \<and> event_details res' =
         Some \<lparr>ev_confidence = VNum (875 / 1000), ev_bbox = (140, 280, 160, 290),
               ev_pose = Some ?p1\<rparr>"
    by simp
  from a b show ?thesis
    by blast
qed

section \<open>Properties of the video stream registry\<close>

lemma release_stream_absent:
  "active_streams s camera_url = None \<Longrightarrow> release_stream camera_url s = Inr s"
  by (simp add: release_stream_def)

lemma release_stream_present:
  assumes "active_streams s camera_url = Some cap"
  shows "release_stream camera_url s =
           Inr (s\<lparr>released := released s @ [cap],
                  active_streams := (active_streams s)(camera_url := None),
                  stream_locks := (stream_locks s)(camera_url := None)\<rparr>)"
proof (cases "stream_locks s camera_url")
  case None
  then have "(stream_locks s)(camera_url := None) = stream_locks s"
    by (simp add: fun_upd_idem)
  with assms None show ?thesis
    by (simp add: release_stream_def delitem_def bindE_def Let_def)
next
  case (Some l)
  with assms show ?thesis
    by (simp add: release_stream_def delitem_def bindE_def Let_def)
qed

lemma read_frame_failure:
  assumes "get_stream camera_url opening s = (Some cap, s1)"
    and "stream_locks s1 camera_url \<noteq> None"
  shows "read_frame camera_url with_detections opening None None overlay s =
           (None, s1\<lparr>released := released s1 @ [cap],
                      active_streams := (active_streams s1)(camera_url := None)\<rparr>)"
proof -
  from assms(1) have act: "active_streams s1 camera_url = Some cap"
    by (auto simp: get_stream_def Let_def split: if_splits open_result.splits)
  from assms(2) obtain l where "stream_locks s1 camera_url = Some l"
    by blast
  with assms(1) act show ?thesis
    by (simp add: read_frame_def Let_def)
qed

lemma get_stream_released:
  "get_stream camera_url opening s = (Some cap, s1) \<Longrightarrow> released s1 = released s"
  by (auto simp: get_stream_def Let_def split: if_splits open_result.splits)

text \<open>
  C8. For calls made one after another: \<open>release_stream\<close> raises nothing, calls
  \<open>release()\<close> on the camera's handle once if the camera is registered (and not at all
  otherwise) and removes it from \<open>active_streams\<close>; a further \<open>release_stream\<close> for the
  same camera returns the state as it is: both registries and the log of \<open>release()\<close>
  calls are unchanged. The same holds after the failure path of \<open>read_frame\<close> (both reads
  fail): that path has called \<open>release()\<close> once and removed the stream (the lock entry
  stays), and a later \<open>release_stream\<close> changes nothing and releases nothing.
\<close>

theorem release_stream_idempotent:
  "(\<exists>s1. release_stream camera_url s = Inr s1
         \<and> released s1 =
             released s @ (case active_streams s camera_url of None \<Rightarrow> [] | Some cap \<Rightarrow> [cap])
         \<and> active_streams s1 camera_url = None
         \<and> release_stream camera_url s1 = Inr s1)
   \<and> (get_stream camera_url opening s = (Some stream, s') \<and> stream_locks s' camera_url \<noteq> None
        \<longrightarrow> (\<exists>s2. read_frame camera_url with_detections opening None None overlay s = (None, s2)
               \<and> released s2 = released s @ [stream]
               \<and> active_streams s2 camera_url = None
               \<and> stream_locks s2 = stream_locks s'
               \<and> release_stream camera_url s2 = Inr s2))"
proof -
  have a: "\<exists>s1. release_stream camera_url s = Inr s1
         \<and> released s1 =
             released s @ (case active_streams s camera_url of None \<Rightarrow> [] | Some cap \<Rightarrow> [cap])
         \<and> active_streams s1 camera_url = None
         \<and> release_stream camera_url s1 = Inr s1"
  proof (cases "active_streams s camera_url")
    case None
    then show ?thesis
      by (simp add: release_stream_absent)
  next
    case (Some cap)
    let ?s1 = "s\<lparr>released := released s @ [cap],
                  active_streams := (active_streams s)(camera_url := None),
                  stream_locks := (stream_locks s)(camera_url := None)\<rparr>"
    have "active_streams ?s1 camera_url = None"
      by simp
    from release_stream_absent [OF this] release_stream_present [OF Some] Some
    show ?thesis
      by simp
  qed
  have b: "\<exists>s2. read_frame camera_url with_detections opening None None overlay s = (None, s2)
               \<and> released s2 = released s @ [stream]
               \<and> active_streams s2 camera_url = None
               \<and> stream_locks s2 = stream_locks s'
               \<and> release_stream camera_url s2 = Inr s2"
    if g: "get_stream camera_url opening s = (Some stream, s')"
      and l: "stream_locks s' camera_url \<noteq> None"
  proof -
    let ?s2 = "s'\<lparr>released := released s' @ [stream],
                   active_streams := (active_streams s')(camera_url := None)\<rparr>"
    have "active_streams ?s2 camera_url = None"
      by simp
    from release_stream_absent [OF this] read_frame_failure [OF g l, of with_detections overlay]
      get_stream_released [OF g]
    show ?thesis
      by simp
  qed
  from a b show ?thesis
    by blast
qed

theorem release_stream_idempotent_witness:
  "read_frame ''0'' True (Opened 7) None None (\<lambda>f. Inr (f :: unit))
       \<lparr>active_streams = Map.empty, stream_locks = Map.empty, released = []\<rparr>
     = (None, \<lparr>active_streams = Map.empty, stream_locks = [''0'' \<mapsto> ()], released = [7]\<rparr>)
   \<and> release_stream ''0''
       \<lparr>active_streams = Map.empty, stream_locks = [''0'' \<mapsto> ()], released = [7]\<rparr>
     = Inr \<lparr>active_streams = Map.empty, stream_locks = [''0'' \<mapsto> ()], released = [7]\<rparr>
   \<and> release_stream ''0''
       \<lparr>active_streams = [''0'' \<mapsto> 7], stream_locks = [''0'' \<mapsto> ()], released = []\<rparr>
     = Inr \<lparr>active_streams = Map.empty, stream_locks = Map.empty, released = [7]\<rparr>
   \<and> release_stream ''0''
       \<lparr>active_streams = Map.empty, stream_locks = Map.empty, released = [7]\<rparr>
     = Inr \<lparr>active_streams = Map.empty, stream_locks = Map.empty, released = [7]\<rparr>"
  using release_stream_idempotent [of "''0''"
      "\<lparr>active_streams = Map.empty, stream_locks = Map.empty, released = []\<rparr>"
      "Opened 7" 7
      "\<lparr>active_streams = [''0'' \<mapsto> 7], stream_locks = [''0'' \<mapsto> ()], released = []\<rparr>"
      True "\<lambda>f. Inr (f :: unit)"]
  by (simp add: read_frame_def get_stream_def release_stream_def delitem_def bindE_def Let_def)

end
